theory Spec2Isabelle
  imports Complex_Main "HOL-Library.Multiset"
begin

section \<open>Bytes, words and the catalogue\<close>

text \<open>
  A Go \<^verbatim>\<open>string\<close> is a sequence of bytes and \<^verbatim>\<open>byte\<close> is \<^verbatim>\<open>uint8\<close>; both are
  modelled by \<^typ>\<open>string\<close> and \<^typ>\<open>char\<close> (a character of HOL is one byte). A run-time
  panic (index out of range) is the value \<open>None\<close>.
\<close>

type_synonym byte = char

definition zero :: byte where
  "zero = CHR 0x00"

text \<open>The test \<^verbatim>\<open>r < 'a' || r > 'z'\<close> of \<^verbatim>\<open>initialCandidates\<close> and \<^verbatim>\<open>inputConstraints\<close>, negated.\<close>

definition lower :: "byte \<Rightarrow> bool" where
  "lower b \<longleftrightarrow> \<not> ((of_char b :: nat) < 97 \<or> (of_char b :: nat) > 122)"

text \<open>The column \<^verbatim>\<open>b - 'a'\<close>: a subtraction of \<^verbatim>\<open>uint8\<close>, which wraps around.\<close>

definition idx :: "byte \<Rightarrow> nat" where
  "idx b = ((of_char b :: nat) + 256 - 97) mod 256"

text \<open>
  \<^verbatim>\<open>initialCandidates\<close> keeps a line of the frequency file only when
  \<^verbatim>\<open>len(w) == 5\<close> and no rune of \<^verbatim>\<open>w\<close> is outside \<^verbatim>\<open>'a'..'z'\<close>.
\<close>

definition isWord :: "string \<Rightarrow> bool" where
  "isWord w \<longleftrightarrow> length w = 5 \<and> list_all lower w"

record word =
  word :: string
  freq :: int
  score :: int
  exp' :: real

definition catalog :: "word list \<Rightarrow> bool" where
  "catalog ws \<longleftrightarrow> list_all (\<lambda>w. isWord (word w)) ws"

section \<open>The constraint model (position-aware variant)\<close>

text \<open>
  \<^verbatim>\<open>type constraints struct { position [5]byte; notPosition [5][26]bool; contains []byte }\<close>.
  The two arrays are maps from their indices; the code reads and writes rows \<open>0..4\<close> only,
  and the bound of a computed column (\<open>26\<close>) is checked where the code indexes with it.
\<close>

record constraints =
  position :: "nat \<Rightarrow> byte"
  notPosition :: "nat \<Rightarrow> nat \<Rightarrow> bool"
  contains :: "byte list"

definition newConstraints :: constraints where
  "newConstraints = \<lparr>position = (\<lambda>i. zero), notPosition = (\<lambda>i j. False), contains = []\<rparr>"

definition clearConstraints :: "constraints \<Rightarrow> constraints" where
  "clearConstraints c =
     c\<lparr>position := (\<lambda>i. zero), notPosition := (\<lambda>i j. False), contains := take 0 (contains c)\<rparr>"

subsection \<open>satisfies and filter\<close>

text \<open>
  The first loop of \<^verbatim>\<open>satisfies\<close>, over the positions still to visit. \<^verbatim>\<open>word[i]\<close> panics
  past the end of the word, \<^verbatim>\<open>c.notPosition[i][got-'a']\<close> panics on a column of 26 or more.
\<close>

fun satisfiesPos :: "constraints \<Rightarrow> string \<Rightarrow> nat list \<Rightarrow> bool option" where
  "satisfiesPos c w [] = Some True"
| "satisfiesPos c w (i # is) =
     (if length w \<le> i then None
      else
        let got = w ! i; want = position c i in
        if want \<noteq> zero then
          (if got \<noteq> want then Some False else satisfiesPos c w is)
        else
          (if 26 \<le> idx got then None
           else if notPosition c i (idx got) then Some False
           else satisfiesPos c w is))"

text \<open>The inner loop of the second part: is \<open>b\<close> at a position that is not fixed?\<close>

fun found :: "constraints \<Rightarrow> string \<Rightarrow> byte \<Rightarrow> nat list \<Rightarrow> bool" where
  "found c w b [] = False"
| "found c w b (i # is) = (if position c i = zero \<and> w ! i = b then True else found c w b is)"

fun satisfiesContains :: "constraints \<Rightarrow> string \<Rightarrow> byte list \<Rightarrow> bool" where
  "satisfiesContains c w [] = True"
| "satisfiesContains c w (b # bs) =
     (if \<not> found c w b [0..<5] then False else satisfiesContains c w bs)"

definition satisfies :: "constraints \<Rightarrow> string \<Rightarrow> bool option" where
  "satisfies c w =
     (case satisfiesPos c w [0..<5] of
        None \<Rightarrow> None
      | Some False \<Rightarrow> Some False
      | Some True \<Rightarrow> Some (satisfiesContains c w (contains c)))"

text \<open>
  \<^verbatim>\<open>filter\<close> compacts the slice in place: \<open>k\<close> runs over the indices of \<^verbatim>\<open>words\<close>,
  \<open>i\<close> is the write index, and the element read at \<open>k\<close> is read from the array as it
  stands. The result is \<^verbatim>\<open>words[0:i]\<close>. The text of \<^verbatim>\<open>filter\<close> is the same in every
  variant of the program, so the loop takes the variant's \<^verbatim>\<open>satisfies\<close> (with its
  constraints) as \<open>sat\<close>.
\<close>

fun filterLoop :: "(string \<Rightarrow> bool option) \<Rightarrow> nat list \<Rightarrow> word list \<Rightarrow> nat \<Rightarrow> (word list \<times> nat) option" where
  "filterLoop sat [] arr i = Some (arr, i)"
| "filterLoop sat (k # ks) arr i =
     (let w = arr ! k in
      case sat (word w) of
        None \<Rightarrow> None
      | Some True \<Rightarrow> filterLoop sat ks (arr[i := w]) (Suc i)
      | Some False \<Rightarrow> filterLoop sat ks arr i)"

definition filter' :: "constraints \<Rightarrow> word list \<Rightarrow> word list option" where
  "filter' c words =
     (case filterLoop (satisfies c) [0..<length words] words 0 of
        None \<Rightarrow> None
      | Some (arr, i) \<Rightarrow> Some (take i arr))"

subsection \<open>applyDiffConstraint\<close>

text \<open>The first loop: the \<^verbatim>\<open>+\<close> constraints.\<close>

fun diffFixed :: "nat list \<Rightarrow> string \<Rightarrow> string \<Rightarrow> constraints \<Rightarrow> constraints option" where
  "diffFixed [] guess answer c = Some c"
| "diffFixed (i # is) guess answer c =
     (if length guess \<le> i \<or> length answer \<le> i then None
      else if guess ! i = answer ! i
        then diffFixed is guess answer (c\<lparr>position := (position c)(i := guess ! i)\<rparr>)
        else diffFixed is guess answer c)"

text \<open>
  The loop of the \<^verbatim>\<open>else\<close> branch, also the body of the \<^verbatim>\<open>-\<close> pass of
  \<^verbatim>\<open>inputConstraints\<close>: column \<open>k\<close> is set in every row whose position is not fixed.
\<close>

fun excludeFree :: "nat list \<Rightarrow> nat \<Rightarrow> constraints \<Rightarrow> constraints" where
  "excludeFree [] k c = c"
| "excludeFree (j # js) k c =
     excludeFree js k
       (if position c j = zero
        then c\<lparr>notPosition := (notPosition c)(j := (notPosition c j)(k := True))\<rparr>
        else c)"

text \<open>
  The second loop. At a position that is not fixed both branches index a row of
  \<^verbatim>\<open>notPosition\<close> with \<^verbatim>\<open>guess[i]-'a'\<close> (the \<^verbatim>\<open>else\<close> branch at least in row \<open>i\<close>),
  so a column of 26 or more panics in both.
\<close>

fun diffFree :: "nat list \<Rightarrow> string \<Rightarrow> string \<Rightarrow> constraints \<Rightarrow> constraints option" where
  "diffFree [] guess answer c = Some c"
| "diffFree (i # is) guess answer c =
     (if position c i \<noteq> zero then diffFree is guess answer c
      else if 26 \<le> idx (guess ! i) then None
      else if found c answer (guess ! i) [0..<5]
        then diffFree is guess answer
               (c\<lparr>notPosition := (notPosition c)(i := (notPosition c i)(idx (guess ! i) := True)),
                  contains := contains c @ [guess ! i]\<rparr>)
        else diffFree is guess answer (excludeFree [0..<5] (idx (guess ! i)) c))"

definition applyDiffConstraint :: "constraints \<Rightarrow> string \<Rightarrow> string \<Rightarrow> constraints option" where
  "applyDiffConstraint c guess answer =
     (case diffFixed [0..<5] guess answer c of
        None \<Rightarrow> None
      | Some c1 \<Rightarrow> diffFree [0..<5] guess answer c1)"

subsection \<open>inputConstraints\<close>

text \<open>
  \<^verbatim>\<open>strings.Fields\<close> of the standard library splits a string around runs of white space
  (\<^verbatim>\<open>unicode.IsSpace\<close>). The white-space characters are listed by their UTF-8 encoding:
  U+0009..U+000D, U+0020, U+0085, U+00A0, U+1680, U+2000..U+200A, U+2028, U+2029, U+202F,
  U+205F, U+3000. A lead byte of UTF-8 always starts a character, so a white-space
  character is wherever its bytes are.
\<close>

definition spaceSeqs :: "nat list list" where
  "spaceSeqs =
     [[0x09], [0x0A], [0x0B], [0x0C], [0x0D], [0x20], [0xC2, 0x85], [0xC2, 0xA0],
      [0xE1, 0x9A, 0x80],
      [0xE2, 0x80, 0x80], [0xE2, 0x80, 0x81], [0xE2, 0x80, 0x82], [0xE2, 0x80, 0x83],
      [0xE2, 0x80, 0x84], [0xE2, 0x80, 0x85], [0xE2, 0x80, 0x86], [0xE2, 0x80, 0x87],
      [0xE2, 0x80, 0x88], [0xE2, 0x80, 0x89], [0xE2, 0x80, 0x8A],
      [0xE2, 0x80, 0xA8], [0xE2, 0x80, 0xA9], [0xE2, 0x80, 0xAF], [0xE2, 0x81, 0x9F],
      [0xE3, 0x80, 0x80]]"

text \<open>The number of bytes of the white-space character at the head of \<open>s\<close>, or 0.\<close>

definition spaceLen :: "string \<Rightarrow> nat" where
  "spaceLen s =
     (case filter (\<lambda>q. take (length q) (map of_char s) = q) spaceSeqs of
        [] \<Rightarrow> 0
      | q # _ \<Rightarrow> length q)"

text \<open>\<open>skip\<close> counts the bytes of a white-space character still to pass, \<open>cur\<close> is the field being read.\<close>

fun fieldsLoop :: "nat \<Rightarrow> string \<Rightarrow> string \<Rightarrow> string list" where
  "fieldsLoop skip cur [] = (if cur = [] then [] else [cur])"
| "fieldsLoop skip cur (b # s) =
     (if 0 < skip then fieldsLoop (skip - 1) cur s
      else if 0 < spaceLen (b # s)
        then (if cur = [] then [] else [cur]) @ fieldsLoop (spaceLen (b # s) - 1) [] s
        else fieldsLoop 0 (cur @ [b]) s)"

definition Fields :: "string \<Rightarrow> string list" where
  "Fields s = fieldsLoop 0 [] s"

text \<open>The validation loop returns \<^verbatim>\<open>nil\<close> at the first field that fails this test.\<close>

definition fieldOk :: "string \<Rightarrow> bool" where
  "fieldOk field \<longleftrightarrow>
     \<not> (length field \<noteq> 2 \<or>
        ((field ! 0 \<noteq> CHR ''-'' \<and> field ! 0 \<noteq> CHR ''+'' \<and> field ! 0 \<noteq> CHR ''~'')
         \<or> \<not> lower (field ! 1)))"

text \<open>The pass over the \<^verbatim>\<open>+\<close> and \<^verbatim>\<open>~\<close> fields, each with its index.\<close>

fun inputPlus :: "(nat \<times> string) list \<Rightarrow> constraints \<Rightarrow> constraints" where
  "inputPlus [] c = c"
| "inputPlus ((i, field) # fs) c =
     inputPlus fs
       (if field ! 0 = CHR ''+'' then c\<lparr>position := (position c)(i := field ! 1)\<rparr>
        else if field ! 0 = CHR ''~''
          then c\<lparr>notPosition := (notPosition c)(i := (notPosition c i)(idx (field ! 1) := True)),
                 contains := contains c @ [field ! 1]\<rparr>
        else c)"

text \<open>The pass over the \<^verbatim>\<open>-\<close> fields.\<close>

fun inputMinus :: "string list \<Rightarrow> constraints \<Rightarrow> constraints" where
  "inputMinus [] c = c"
| "inputMinus (field # fs) c =
     inputMinus fs
       (if field ! 0 \<noteq> CHR ''-'' then c else excludeFree [0..<5] (idx (field ! 1)) c)"

text \<open>\<open>None\<close> is the \<^verbatim>\<open>nil\<close> result.\<close>

definition inputConstraints :: "string \<Rightarrow> constraints option" where
  "inputConstraints line =
     (let c = newConstraints; fields = Fields line in
      if length fields \<noteq> 5 then None
      else if \<not> list_all fieldOk fields then None
      else Some (inputMinus fields (inputPlus (enumerate 0 fields) c)))"

section \<open>The variant that ignores multiplicity\<close>

text \<open>
  The second program of \<^verbatim>\<open>wordle.go\<close> and the program of the unnamed file share these
  functions word for word:
  \<^verbatim>\<open>type constraints struct { position [5]byte; notPosition [5][]byte; contains []byte; notContains []byte }\<close>.
\<close>

record constraints2 =
  position2 :: "nat \<Rightarrow> byte"
  notPosition2 :: "nat \<Rightarrow> byte list"
  contains2 :: "byte list"
  notContains2 :: "byte list"

definition newConstraints2 :: constraints2 where
  "newConstraints2 =
     \<lparr>position2 = (\<lambda>i. zero), notPosition2 = (\<lambda>i. []), contains2 = [], notContains2 = []\<rparr>"

definition clearConstraints2 :: "constraints2 \<Rightarrow> constraints2" where
  "clearConstraints2 c =
     c\<lparr>position2 := (\<lambda>i. zero), notPosition2 := (\<lambda>i. take 0 (notPosition2 c i)),
       contains2 := take 0 (contains2 c), notContains2 := take 0 (notContains2 c)\<rparr>"

fun satisfiesPos2 :: "constraints2 \<Rightarrow> string \<Rightarrow> nat list \<Rightarrow> bool option" where
  "satisfiesPos2 c w [] = Some True"
| "satisfiesPos2 c w (i # is) =
     (if length w \<le> i then None
      else
        let got = w ! i; want = position2 c i in
        if want \<noteq> zero \<and> got \<noteq> want then Some False
        else if got \<in> set (notPosition2 c i) then Some False
        else satisfiesPos2 c w is)"

text \<open>
  \<^verbatim>\<open>word[0] != b && ... && word[4] != b\<close> and its dual; the first loop has read
  \<^verbatim>\<open>word[0..4]\<close> when these run.
\<close>

definition nowhere :: "string \<Rightarrow> byte \<Rightarrow> bool" where
  "nowhere w b \<longleftrightarrow> w ! 0 \<noteq> b \<and> w ! 1 \<noteq> b \<and> w ! 2 \<noteq> b \<and> w ! 3 \<noteq> b \<and> w ! 4 \<noteq> b"

definition somewhere :: "string \<Rightarrow> byte \<Rightarrow> bool" where
  "somewhere w b \<longleftrightarrow> w ! 0 = b \<or> w ! 1 = b \<or> w ! 2 = b \<or> w ! 3 = b \<or> w ! 4 = b"

definition satisfies2 :: "constraints2 \<Rightarrow> string \<Rightarrow> bool option" where
  "satisfies2 c w =
     (case satisfiesPos2 c w [0..<5] of
        None \<Rightarrow> None
      | Some False \<Rightarrow> Some False
      | Some True \<Rightarrow>
          Some (\<not> list_ex (nowhere w) (contains2 c) \<and> \<not> list_ex (somewhere w) (notContains2 c)))"

definition filter2 :: "constraints2 \<Rightarrow> word list \<Rightarrow> word list option" where
  "filter2 c words =
     (case filterLoop (satisfies2 c) [0..<length words] words 0 of
        None \<Rightarrow> None
      | Some (arr, i) \<Rightarrow> Some (take i arr))"

text \<open>
  \<^verbatim>\<open>strings.ContainsRune(answer, rune(b))\<close> of the standard library: a byte below
  \<open>0x80\<close> is looked for as a byte, a byte from \<open>0x80\<close> on is the code point of that number,
  looked for as the two bytes of its UTF-8 encoding.
\<close>

fun hasPair :: "nat \<Rightarrow> nat \<Rightarrow> nat list \<Rightarrow> bool" where
  "hasPair x y (a # b # s) = (if a = x \<and> b = y then True else hasPair x y (b # s))"
| "hasPair x y s = False"

definition ContainsRune :: "string \<Rightarrow> byte \<Rightarrow> bool" where
  "ContainsRune s b =
     (if (of_char b :: nat) < 128 then b \<in> set s
      else hasPair (192 + of_char b div 64) (128 + of_char b mod 64) (map of_char s))"

fun diffLoop2 :: "nat list \<Rightarrow> string \<Rightarrow> string \<Rightarrow> constraints2 \<Rightarrow> constraints2 option" where
  "diffLoop2 [] guess answer c = Some c"
| "diffLoop2 (i # is) guess answer c =
     (if length guess \<le> i \<or> length answer \<le> i then None
      else if guess ! i = answer ! i
        then diffLoop2 is guess answer (c\<lparr>position2 := (position2 c)(i := guess ! i)\<rparr>)
      else
        let c1 = c\<lparr>notPosition2 := (notPosition2 c)(i := notPosition2 c i @ [guess ! i])\<rparr> in
        if \<not> ContainsRune answer (guess ! i)
          then diffLoop2 is guess answer (c1\<lparr>notContains2 := notContains2 c1 @ [guess ! i]\<rparr>)
          else diffLoop2 is guess answer (c1\<lparr>contains2 := contains2 c1 @ [guess ! i]\<rparr>))"

definition applyDiffConstraint2 :: "constraints2 \<Rightarrow> string \<Rightarrow> string \<Rightarrow> constraints2 option" where
  "applyDiffConstraint2 c guess answer = diffLoop2 [0..<5] guess answer c"

section \<open>One step of the simulation\<close>

text \<open>
  The body of the loop of \<^verbatim>\<open>main\<close> that plays against a known answer:
  \<^verbatim>\<open>clearConstraints(c); applyDiffConstraint(c, guess, *answer); words = filter(c, words)\<close>,
  in the position-aware program and in the other one.
\<close>

definition diffFilter :: "constraints \<Rightarrow> string \<Rightarrow> string \<Rightarrow> word list \<Rightarrow> word list option" where
  "diffFilter c guess answer words =
     (case applyDiffConstraint (clearConstraints c) guess answer of
        None \<Rightarrow> None
      | Some c' \<Rightarrow> filter' c' words)"

definition diffFilter2 :: "constraints2 \<Rightarrow> string \<Rightarrow> string \<Rightarrow> word list \<Rightarrow> word list option" where
  "diffFilter2 c guess answer words =
     (case applyDiffConstraint2 (clearConstraints2 c) guess answer of
        None \<Rightarrow> None
      | Some c' \<Rightarrow> filter2 c' words)"

section \<open>Scoring, the expected next-set size and the suggestions\<close>

text \<open>
  What stops the scoring pass: an index out of range (a panic) and a division of
  \<^verbatim>\<open>float64\<close> by zero, whose quotient is no number of the model. \<open>NotASCII\<close> marks a
  string outside the model: \<^verbatim>\<open>range\<close> over a string decodes UTF-8, which is the byte itself
  for the bytes below \<open>0x80\<close> and is not modelled for the others.
\<close>

datatype fault = IndexOutOfRange | DivideByZero | NotASCII

definition smallSetSize :: nat where
  "smallSetSize = 500"

definition topSetSize :: nat where
  "topSetSize = 20"

text \<open>The pairs \<open>(i, r)\<close> of \<^verbatim>\<open>for i, r := range w\<close>.\<close>

definition rangeString :: "string \<Rightarrow> fault + (nat \<times> nat) list" where
  "rangeString w =
     (if list_all (\<lambda>b. (of_char b :: nat) < 128) w then Inr (enumerate 0 (map of_char w))
      else Inl NotASCII)"

text \<open>\<^verbatim>\<open>[5][255]int\<close>: a table indexed by position and rune.\<close>

type_synonym table = "nat \<Rightarrow> nat \<Rightarrow> int"

fun countRunes :: "(nat \<times> nat) list \<Rightarrow> table \<Rightarrow> fault + table" where
  "countRunes [] tab = Inr tab"
| "countRunes ((i, r) # irs) tab =
     (if 5 \<le> i \<or> 255 \<le> r then Inl IndexOutOfRange
      else countRunes irs (tab(i := (tab i)(r := tab i r + 1))))"

fun letterFreqLoop :: "word list \<Rightarrow> table \<Rightarrow> fault + table" where
  "letterFreqLoop [] tab = Inr tab"
| "letterFreqLoop (w # ws) tab =
     (case rangeString (word w) of
        Inl e \<Rightarrow> Inl e
      | Inr irs \<Rightarrow>
          (case countRunes irs tab of
             Inl e \<Rightarrow> Inl e
           | Inr tab' \<Rightarrow> letterFreqLoop ws tab'))"

definition letterFreqByPosition :: "word list \<Rightarrow> fault + table" where
  "letterFreqByPosition words = letterFreqLoop words (\<lambda>i r. 0)"

text \<open>
  \<^verbatim>\<open>sort.Slice\<close> of the standard library sorts a slice in place and is not stable. It is
  a parameter \<open>srt\<close> of the functions that call it, taking the comparator on elements.
  \<open>permutes\<close> and \<open>sortsBy\<close> say what the library promises of it: the result is a
  rearrangement of the slice, in which (for a comparator that is a strict weak order) no
  element is less than an earlier one.
\<close>

type_synonym 'a sorter = "('a \<Rightarrow> 'a \<Rightarrow> bool) \<Rightarrow> 'a list \<Rightarrow> 'a list"

definition permutes :: "'a sorter \<Rightarrow> bool" where
  "permutes srt \<longleftrightarrow> (\<forall>lt xs. mset (srt lt xs) = mset xs)"

definition sortsBy :: "'a sorter \<Rightarrow> ('a \<Rightarrow> 'a \<Rightarrow> bool) \<Rightarrow> bool" where
  "sortsBy srt lt \<longleftrightarrow> (\<forall>xs. sorted_wrt (\<lambda>x y. \<not> lt y x) (srt lt xs))"

text \<open>A sort to run the functions with: insertion sort.\<close>

fun insertBy :: "('a \<Rightarrow> 'a \<Rightarrow> bool) \<Rightarrow> 'a \<Rightarrow> 'a list \<Rightarrow> 'a list" where
  "insertBy lt x [] = [x]"
| "insertBy lt x (y # ys) = (if lt y x then y # insertBy lt x ys else x # y # ys)"

definition insertionSort :: "'a sorter" where
  "insertionSort lt xs = foldr (insertBy lt) xs []"

text \<open>\<^verbatim>\<open>posScore[i][order[j]] = j\<close> for \<open>j\<close> from the given index on.\<close>

fun assignRanks :: "nat list \<Rightarrow> nat \<Rightarrow> (nat \<Rightarrow> int) \<Rightarrow> fault + (nat \<Rightarrow> int)" where
  "assignRanks [] j row = Inr row"
| "assignRanks (b # order) j row =
     (if 255 \<le> b then Inl IndexOutOfRange else assignRanks order (Suc j) (row(b := int j)))"

fun scoreRows :: "nat list \<Rightarrow> nat sorter \<Rightarrow> table \<Rightarrow> table \<Rightarrow> fault + table" where
  "scoreRows [] srt posFreq posScore = Inr posScore"
| "scoreRows (i # is) srt posFreq posScore =
     (case assignRanks (srt (\<lambda>k l. posFreq i k < posFreq i l) [0..<255]) 0 (posScore i) of
        Inl e \<Rightarrow> Inl e
      | Inr row \<Rightarrow> scoreRows is srt posFreq (posScore(i := row)))"

definition letterScoreByPosition :: "nat sorter \<Rightarrow> table \<Rightarrow> fault + table" where
  "letterScoreByPosition srt posFreq = scoreRows [0..<5] srt posFreq (\<lambda>i r. 0)"

fun scoreLoop :: "(nat \<times> nat) list \<Rightarrow> table \<Rightarrow> int \<Rightarrow> fault + int" where
  "scoreLoop [] posScore sc = Inr sc"
| "scoreLoop ((i, r) # irs) posScore sc =
     (if 5 \<le> i \<or> 255 \<le> r then Inl IndexOutOfRange
      else scoreLoop irs posScore (sc + posScore i r))"

definition score' :: "table \<Rightarrow> string \<Rightarrow> fault + int" where
  "score' posScore w =
     (case rangeString w of
        Inl e \<Rightarrow> Inl e
      | Inr irs \<Rightarrow> scoreLoop irs posScore 0)"

text \<open>The inner loop of \<^verbatim>\<open>expectedNextSetSize\<close>: the words that satisfy \<open>c\<close> are counted.\<close>

fun countSatisfies :: "constraints \<Rightarrow> word list \<Rightarrow> nat \<Rightarrow> nat option" where
  "countSatisfies c [] n = Some n"
| "countSatisfies c (w # ws) n =
     (case satisfies c (word w) of
        None \<Rightarrow> None
      | Some True \<Rightarrow> countSatisfies c ws (Suc n)
      | Some False \<Rightarrow> countSatisfies c ws n)"

text \<open>
  Arithmetic of \<^verbatim>\<open>float64\<close>: a value is a real number, and every operation (the conversion
  of an \<^verbatim>\<open>int\<close> too) is the exact operation followed by the rounding \<open>rnd\<close>, a parameter.
  The outer loop runs over the hypothetical answers \<open>ws\<close> with their index \<open>i\<close>; the one
  scratch model \<open>c\<close> is cleared and filled again for each.
\<close>

fun expectedLoop ::
  "(real \<Rightarrow> real) \<Rightarrow> word list \<Rightarrow> string \<Rightarrow> nat \<Rightarrow> word list \<Rightarrow> constraints \<Rightarrow> real \<Rightarrow> fault + real" where
  "expectedLoop rnd words guess i [] c avg = Inr avg"
| "expectedLoop rnd words guess i (w # ws) c avg =
     (case applyDiffConstraint (clearConstraints c) guess (word w) of
        None \<Rightarrow> Inl IndexOutOfRange
      | Some c' \<Rightarrow>
          (case countSatisfies c' words 0 of
             None \<Rightarrow> Inl IndexOutOfRange
           | Some n \<Rightarrow>
               if rnd (real (i + 1)) = 0 then Inl DivideByZero
               else expectedLoop rnd words guess (i + 1) ws c'
                      (rnd (avg + rnd (rnd (rnd (real n) - avg) / rnd (real (i + 1)))))))"

definition expectedNextSetSize :: "(real \<Rightarrow> real) \<Rightarrow> word list \<Rightarrow> string \<Rightarrow> fault + real" where
  "expectedNextSetSize rnd words guess = expectedLoop rnd words guess 0 words newConstraints 0"

text \<open>The two comparators of \<^verbatim>\<open>sortWords\<close>.\<close>

definition lessScore :: "word \<Rightarrow> word \<Rightarrow> bool" where
  "lessScore a b = (if score a = score b then freq a < freq b else score a < score b)"

definition lessExp :: "word \<Rightarrow> word \<Rightarrow> bool" where
  "lessExp a b =
     (if exp' a = exp' b
      then (if freq a = freq b then score a < score b else freq a < freq b)
      else exp' a > exp' b)"

fun setScores :: "table \<Rightarrow> word list \<Rightarrow> fault + word list" where
  "setScores posScore [] = Inr []"
| "setScores posScore (w # ws) =
     (case score' posScore (word w) of
        Inl e \<Rightarrow> Inl e
      | Inr sc \<Rightarrow>
          (case setScores posScore ws of
             Inl e \<Rightarrow> Inl e
           | Inr ws' \<Rightarrow> Inr (w\<lparr>score := sc\<rparr> # ws')))"

fun setExps :: "(real \<Rightarrow> real) \<Rightarrow> word list \<Rightarrow> word list \<Rightarrow> fault + word list" where
  "setExps rnd words [] = Inr []"
| "setExps rnd words (w # tops) =
     (case expectedNextSetSize rnd words (word w) of
        Inl e \<Rightarrow> Inl e
      | Inr x \<Rightarrow>
          (case setExps rnd words tops of
             Inl e \<Rightarrow> Inl e
           | Inr tops' \<Rightarrow> Inr (w\<lparr>exp' := x\<rparr> # tops')))"

text \<open>
  \<^verbatim>\<open>sortWords\<close> leaves the slice sorted by the first comparator, its last \<open>n\<close> elements
  (\<^verbatim>\<open>top\<close>) given their expected next-set size and sorted again by the second.
\<close>

definition sortWords :: "(real \<Rightarrow> real) \<Rightarrow> nat sorter \<Rightarrow> word sorter \<Rightarrow> word list \<Rightarrow> fault + word list" where
  "sortWords rnd srtB srtW words =
     (case letterFreqByPosition words of
        Inl e \<Rightarrow> Inl e
      | Inr posFreq \<Rightarrow>
     (case letterScoreByPosition srtB posFreq of
        Inl e \<Rightarrow> Inl e
      | Inr posScore \<Rightarrow>
     (case setScores posScore words of
        Inl e \<Rightarrow> Inl e
      | Inr scored \<Rightarrow>
          let ws = srtW lessScore scored;
              n = (if length ws > smallSetSize \<and> topSetSize < length ws
                   then topSetSize else length ws)
          in
          (case setExps rnd ws (drop (length ws - n) ws) of
             Inl e \<Rightarrow> Inl e
           | Inr tops \<Rightarrow> Inr (take (length ws - n) ws @ srtW lessExp tops)))))"

text \<open>
  \<^verbatim>\<open>suggest\<close> prints the last \<open>n\<close> words, one line each, and then the number of candidates;
  the model returns what is printed.
\<close>

definition suggest ::
  "(real \<Rightarrow> real) \<Rightarrow> nat sorter \<Rightarrow> word sorter \<Rightarrow> word list \<Rightarrow> fault + (word list \<times> nat)" where
  "suggest rnd srtB srtW words =
     (case sortWords rnd srtB srtW words of
        Inl e \<Rightarrow> Inl e
      | Inr ws \<Rightarrow>
          let n = (if 20 \<ge> length ws then length ws else 20)
          in Inr (drop (length ws - n) ws, length ws))"

section \<open>The words of the specification\<close>

text \<open>\<^verbatim>\<open>word{word: w, freq: freq}\<close>, an entry of the catalogue as \<^verbatim>\<open>initialCandidates\<close> makes it.\<close>

definition entry :: "string \<Rightarrow> int \<Rightarrow> word" where
  "entry w f = \<lparr>word = w, freq = f, score = 0, exp' = 0\<rparr>"

text \<open>The words that \<^verbatim>\<open>filter\<close> keeps.\<close>

definition keeps :: "constraints \<Rightarrow> word \<Rightarrow> bool" where
  "keeps c w \<longleftrightarrow> satisfies c (word w) = Some True"

text \<open>What the first loop of \<^verbatim>\<open>satisfies\<close> asks of position \<open>i\<close>.\<close>

definition posOk :: "constraints \<Rightarrow> string \<Rightarrow> nat \<Rightarrow> bool" where
  "posOk c w i \<longleftrightarrow>
     (if position c i \<noteq> zero then w ! i = position c i else \<not> notPosition c i (idx (w ! i)))"

text \<open>
  The four conditions of consistency, in the words of the specification. The model
  of the position-aware program has no set \<open>mustNotContain\<close>: a letter found absent is
  excluded at every position that is not fixed (the encoding that the specification
  calls equivalent), and \<open>mustNotContain\<close> reads the set back from that encoding.
\<close>

definition fixedOk :: "constraints \<Rightarrow> string \<Rightarrow> bool" where
  "fixedOk c w \<longleftrightarrow> (\<forall>i \<in> {0..<5}. position c i \<noteq> zero \<longrightarrow> w ! i = position c i)"

definition excludedOk :: "constraints \<Rightarrow> string \<Rightarrow> bool" where
  "excludedOk c w \<longleftrightarrow> (\<forall>i \<in> {0..<5}. \<not> notPosition c i (idx (w ! i)) \<or> position c i = w ! i)"

definition containsOk :: "constraints \<Rightarrow> string \<Rightarrow> bool" where
  "containsOk c w \<longleftrightarrow> (\<forall>b \<in> set (contains c). \<exists>i \<in> {0..<5}. position c i = zero \<and> w ! i = b)"

definition mustNotContain :: "constraints \<Rightarrow> byte \<Rightarrow> bool" where
  "mustNotContain c b \<longleftrightarrow> (\<forall>i \<in> {0..<5}. position c i = zero \<longrightarrow> notPosition c i (idx b))"

text \<open>Condition (4) as the specification has it: the letter occurs nowhere in the word.\<close>

definition absentOk :: "constraints \<Rightarrow> string \<Rightarrow> bool" where
  "absentOk c w \<longleftrightarrow> (\<forall>b \<in> set w. \<not> mustNotContain c b)"

text \<open>Condition (4) as the program has it: the letter occurs at no position that is not fixed.\<close>

definition absentFreeOk :: "constraints \<Rightarrow> string \<Rightarrow> bool" where
  "absentFreeOk c w \<longleftrightarrow> (\<forall>i \<in> {0..<5}. position c i = zero \<longrightarrow> \<not> mustNotContain c (w ! i))"

definition consistentSpec :: "constraints \<Rightarrow> string \<Rightarrow> bool" where
  "consistentSpec c w \<longleftrightarrow> fixedOk c w \<and> excludedOk c w \<and> containsOk c w \<and> absentOk c w"

definition consistent :: "constraints \<Rightarrow> string \<Rightarrow> bool" where
  "consistent c w \<longleftrightarrow> fixedOk c w \<and> excludedOk c w \<and> containsOk c w \<and> absentFreeOk c w"

text \<open>
  The diff, in closed form. \<open>present\<close>: the answer has the letter at a position that no exact
  match has consumed. \<open>recorded\<close>: position \<open>i\<close> of the guess sets column \<open>k\<close> of row \<open>j\<close>.
\<close>

definition present :: "string \<Rightarrow> string \<Rightarrow> byte \<Rightarrow> bool" where
  "present guess answer b \<longleftrightarrow> (\<exists>j \<in> {0..<5}. guess ! j \<noteq> answer ! j \<and> answer ! j = b)"

definition recorded :: "constraints \<Rightarrow> string \<Rightarrow> string \<Rightarrow> nat \<Rightarrow> nat \<Rightarrow> nat \<Rightarrow> bool" where
  "recorded c guess answer i j k \<longleftrightarrow>
     position c i = zero \<and> k = idx (guess ! i) \<and>
     (if found c answer (guess ! i) [0..<5] then j = i else j < 5 \<and> position c j = zero)"

text \<open>
  The specification's rule for a letter of the guess that is not an exact match: it is
  contained when the answer has an occurrence that neither an exact match has consumed
  nor an earlier position of the guess, not fixed and of the same letter, has claimed.
\<close>

definition unclaimed :: "string \<Rightarrow> string \<Rightarrow> nat \<Rightarrow> bool" where
  "unclaimed guess answer i \<longleftrightarrow>
     length (filter (\<lambda>i'. guess ! i' \<noteq> answer ! i' \<and> guess ! i' = guess ! i) [0..<i])
       < length (filter (\<lambda>j. guess ! j \<noteq> answer ! j \<and> answer ! j = guess ! i) [0..<5])"

text \<open>The grammar of a line of feedback.\<close>

definition token :: "string \<Rightarrow> bool" where
  "token t \<longleftrightarrow>
     length t = 2 \<and> t ! 0 \<in> {CHR ''+'', CHR ''~'', CHR ''-''} \<and>
     97 \<le> (of_char (t ! 1) :: nat) \<and> (of_char (t ! 1) :: nat) \<le> 122"

definition wellFormed :: "string \<Rightarrow> bool" where
  "wellFormed line \<longleftrightarrow> length (Fields line) = 5 \<and> list_all token (Fields line)"

text \<open>
  The order of the shortlist, the more preferred word later. \<open>precedes\<close> is the order of
  the program, \<open>precedesSpec\<close> the order of the specification (ties go to the rarer, then
  to the lower-scored word).
\<close>

definition precedes :: "word \<Rightarrow> word \<Rightarrow> bool" where
  "precedes x y \<longleftrightarrow>
     exp' y < exp' x \<or>
     (exp' y = exp' x \<and> (freq x < freq y \<or> (freq x = freq y \<and> score x \<le> score y)))"

definition precedesSpec :: "word \<Rightarrow> word \<Rightarrow> bool" where
  "precedesSpec x y \<longleftrightarrow>
     exp' y < exp' x \<or>
     (exp' y = exp' x \<and> (freq y < freq x \<or> (freq y = freq x \<and> score y \<le> score x)))"

text \<open>The catalogue of the scenario of the specification.\<close>

definition scenario :: "word list" where
  "scenario =
     [entry ''alpha'' 50, entry ''allot'' 40, entry ''apple'' 30, entry ''adieu'' 20,
      entry ''amber'' 10]"

text \<open>
  The standard model of rounding to nearest in \<^verbatim>\<open>float64\<close>, where nothing overflows or
  underflows: rounding is monotone, leaves the integers up to \<open>N\<close> as they are
  (every integer below \<open>2^53\<close> is a \<^verbatim>\<open>float64\<close>), and its relative error is at most \<open>2^-53\<close>.
\<close>

definition standardModel :: "(real \<Rightarrow> real) \<Rightarrow> nat \<Rightarrow> bool" where
  "standardModel rnd N \<longleftrightarrow>
     (\<forall>x y. x \<le> y \<longrightarrow> rnd x \<le> rnd y) \<and>
     (\<forall>n \<le> N. rnd (real n) = real n) \<and>
     (\<forall>x. \<bar>rnd x - x\<bar> \<le> \<bar>x\<bar> / 2 ^ 53)"

section \<open>The loop of filter\<close>

lemma filterLoop_ok:
  "k \<le> length arr \<Longrightarrow> i \<le> k \<Longrightarrow> \<forall>w \<in> set (drop k arr). sat (word w) \<noteq> None \<Longrightarrow>
   \<exists>arr' i'. filterLoop sat [k..<length arr] arr i = Some (arr', i') \<and>
      take i' arr' = take i arr @ filter (\<lambda>w. sat (word w) = Some True) (drop k arr)"
proof (induction "length arr - k" arbitrary: k arr i)
  case 0
  then show ?case by simp
next
  case (Suc n)
  then have klt: "k < length arr" by simp
  let ?w = "arr ! k"
  have dr: "drop k arr = ?w # drop (Suc k) arr"
    using klt by (simp add: Cons_nth_drop_Suc)
  have up: "[k..<length arr] = k # [Suc k..<length arr]"
    using klt by (simp add: upt_rec)
  from Suc.prems dr obtain b where sb: "sat (word ?w) = Some b"
    by (metis list.set_intros(1) not_None_eq)
  show ?case
  proof (cases b)
    case True
    let ?arr = "arr[i := ?w]"
    have len: "length ?arr = length arr" by simp
    have d2: "drop (Suc k) ?arr = drop (Suc k) arr"
      using Suc.prems(2) by simp
    have "\<exists>arr' i'. filterLoop sat [Suc k..<length ?arr] ?arr (Suc i) = Some (arr', i') \<and>
      take i' arr' = take (Suc i) ?arr @ filter (\<lambda>w. sat (word w) = Some True) (drop (Suc k) ?arr)"
      apply (rule Suc.hyps(1))
      using Suc.hyps(2) Suc.prems klt d2 dr by auto
    moreover have "take (Suc i) ?arr = take i arr @ [?w]"
      using Suc.prems(2) klt by (simp add: take_Suc_conv_app_nth)
    ultimately show ?thesis
      using sb True up dr d2 by auto
  next
    case False
    have "\<exists>arr' i'. filterLoop sat [Suc k..<length arr] arr i = Some (arr', i') \<and>
      take i' arr' = take i arr @ filter (\<lambda>w. sat (word w) = Some True) (drop (Suc k) arr)"
      apply (rule Suc.hyps(1))
      using Suc.hyps(2) Suc.prems klt dr by auto
    then show ?thesis
      using sb False up dr by auto
  qed
qed

lemma filterLoop_panic:
  "k \<le> length arr \<Longrightarrow> i \<le> k \<Longrightarrow> \<exists>w \<in> set (drop k arr). sat (word w) = None \<Longrightarrow>
   filterLoop sat [k..<length arr] arr i = None"
proof (induction "length arr - k" arbitrary: k arr i)
  case 0
  then show ?case by simp
next
  case (Suc n)
  then have klt: "k < length arr" by simp
  let ?w = "arr ! k"
  have dr: "drop k arr = ?w # drop (Suc k) arr"
    using klt by (simp add: Cons_nth_drop_Suc)
  have up: "[k..<length arr] = k # [Suc k..<length arr]"
    using klt by (simp add: upt_rec)
  show ?case
  proof (cases "sat (word ?w)")
    case None
    then show ?thesis using up by simp
  next
    case (Some b)
    with Suc.prems(3) dr have ex: "\<exists>w \<in> set (drop (Suc k) arr). sat (word w) = None"
      by auto
    show ?thesis
    proof (cases b)
      case True
      let ?arr = "arr[i := ?w]"
      have d2: "drop (Suc k) ?arr = drop (Suc k) arr"
        using Suc.prems(2) by simp
      have "filterLoop sat [Suc k..<length ?arr] ?arr (Suc i) = None"
        apply (rule Suc.hyps(1))
        using Suc.hyps(2) Suc.prems klt d2 ex by auto
      then show ?thesis using Some True up by simp
    next
      case False
      have "filterLoop sat [Suc k..<length arr] arr i = None"
        apply (rule Suc.hyps(1))
        using Suc.hyps(2) Suc.prems klt ex by auto
      then show ?thesis using Some False up by simp
    qed
  qed
qed

lemma filterLoop_run:
  "(case filterLoop sat [0..<length ws] ws 0 of None \<Rightarrow> None | Some (arr, i) \<Rightarrow> Some (take i arr)) =
     (if \<exists>w \<in> set ws. sat (word w) = None then None
      else Some (filter (\<lambda>w. sat (word w) = Some True) ws))"
proof (cases "\<exists>w \<in> set ws. sat (word w) = None")
  case True
  then have "filterLoop sat [0..<length ws] ws 0 = None"
    using filterLoop_panic [of 0 ws 0 sat] by simp
  then show ?thesis using True by simp
next
  case False
  then obtain arr' i' where "filterLoop sat [0..<length ws] ws 0 = Some (arr', i')"
    "take i' arr' = filter (\<lambda>w. sat (word w) = Some True) ws"
    using filterLoop_ok [of 0 ws 0 sat] by auto
  then show ?thesis using False by simp
qed

lemma filter'_eq:
  "filter' c ws =
     (if \<exists>w \<in> set ws. satisfies c (word w) = None then None else Some (filter (keeps c) ws))"
  unfolding filter'_def keeps_def by (rule filterLoop_run)

lemma filter2_eq:
  "filter2 c ws =
     (if \<exists>w \<in> set ws. satisfies2 c (word w) = None then None
      else Some (filter (\<lambda>w. satisfies2 c (word w) = Some True) ws))"
  unfolding filter2_def by (rule filterLoop_run)

section \<open>Letters and columns\<close>

lemma wrap_sub: "(x::nat) < 256 \<Longrightarrow> (x + 256 - 97) mod 256 = (if x < 97 then x + 159 else x - 97)"
  by (cases "x < 97") (simp_all add: mod_if)

lemma of_char_lt: "(of_char b :: nat) < 256"
  by simp

lemma idx_alt: "idx b = (if (of_char b :: nat) < 97 then of_char b + 159 else of_char b - 97)"
  unfolding idx_def by (rule wrap_sub [OF of_char_lt])

lemma lower_idx: "lower b \<Longrightarrow> idx b < 26"
  by (auto simp: lower_def idx_alt)

lemma lower_nonzero: "lower b \<Longrightarrow> b \<noteq> zero"
  by (auto simp: lower_def zero_def)

lemma wrap_inj:
  "(x::nat) < 256 \<Longrightarrow> y < 256 \<Longrightarrow>
   (if x < 97 then x + 159 else x - 97) = (if y < 97 then y + 159 else y - 97) \<Longrightarrow> x = y"
  by (auto split: if_splits)

lemma idx_inj: "idx a = idx b \<longleftrightarrow> a = b"
proof
  assume h: "idx a = idx b"
  have "(of_char a :: nat) = of_char b"
    by (rule wrap_inj [OF of_char_lt of_char_lt]) (use h in \<open>simp only: idx_alt\<close>)
  then show "a = b" by simp
qed simp

section \<open>What satisfies computes\<close>

lemma upt5: "[0..<5] = [0, 1, 2, 3, 4]"
  by (simp add: upt_rec)

lemma iv5: "{0..<5::nat} = {0, 1, 2, 3, 4}"
  by (simp add: atLeastLessThan_upt upt5)

lemma isWord_nth: "isWord w \<Longrightarrow> i < 5 \<Longrightarrow> lower (w ! i)"
  by (simp add: isWord_def list_all_length)

lemma satisfiesPos_eq:
  "isWord w \<Longrightarrow> \<forall>i \<in> set is. i < 5 \<Longrightarrow> satisfiesPos c w is = Some (\<forall>i \<in> set is. posOk c w i)"
proof (induction "is")
  case Nil
  then show ?case by simp
next
  case (Cons i "is")
  then have i5: "i < 5" by simp
  have a: "idx (w ! i) < 26"
    by (rule lower_idx [OF isWord_nth [OF Cons.prems(1) i5]])
  have b: "length w = 5" using Cons.prems(1) by (simp add: isWord_def)
  have ih: "satisfiesPos c w is = Some (\<forall>i \<in> set is. posOk c w i)"
    using Cons by simp
  show ?case using a b i5 ih by (simp add: posOk_def Let_def)
qed

lemma found_eq: "found c w b is = (\<exists>i \<in> set is. position c i = zero \<and> w ! i = b)"
  by (induction "is") auto

lemma satisfiesContains_eq:
  "satisfiesContains c w bs = (\<forall>b \<in> set bs. found c w b [0..<5])"
  by (induction bs) auto

lemma satisfies_eq:
  assumes "isWord w"
  shows "satisfies c w =
    Some ((\<forall>i \<in> {0..<5}. posOk c w i) \<and>
          (\<forall>b \<in> set (contains c). \<exists>i \<in> {0..<5}. position c i = zero \<and> w ! i = b))"
proof -
  have "satisfiesPos c w [0..<5] = Some (\<forall>i \<in> set [0..<5]. posOk c w i)"
    by (rule satisfiesPos_eq [OF assms]) simp
  then have "satisfiesPos c w [0..<5] = Some (\<forall>i \<in> {0..<5}. posOk c w i)"
    by simp
  then show ?thesis
    unfolding satisfies_def satisfiesContains_eq found_eq
    by (cases "\<forall>i \<in> {0..<5}. posOk c w i") (simp_all del: Ball_def Bex_def)
qed

lemma catalog_isWord: "catalog ws \<Longrightarrow> w \<in> set ws \<Longrightarrow> isWord (word w)"
  by (simp add: catalog_def list_all_iff)

lemma filter'_catalog: "catalog ws \<Longrightarrow> filter' c ws = Some (filter (keeps c) ws)"
  using catalog_isWord [of ws] by (auto simp: filter'_eq satisfies_eq)

lemma catalog_filter: "catalog ws \<Longrightarrow> catalog (filter P ws)"
  by (simp add: catalog_def list_all_iff)

lemma posOk_consistent:
  assumes "isWord w"
  shows "(\<forall>i \<in> {0..<5}. posOk c w i) \<longleftrightarrow> fixedOk c w \<and> excludedOk c w \<and> absentFreeOk c w"
proof -
  have nz: "\<And>i. i < 5 \<Longrightarrow> w ! i \<noteq> zero"
    using isWord_nth [OF assms] lower_nonzero by blast
  have a: "(\<forall>i \<in> {0..<5}. posOk c w i) \<longleftrightarrow> fixedOk c w \<and> excludedOk c w"
    unfolding posOk_def fixedOk_def excludedOk_def using nz by (auto; metis)
  have b: "excludedOk c w \<Longrightarrow> absentFreeOk c w"
    unfolding excludedOk_def absentFreeOk_def mustNotContain_def using nz by (auto; metis)
  show ?thesis using a b by blast
qed

lemma satisfies_consistent: "isWord w \<Longrightarrow> satisfies c w = Some (consistent c w)"
  unfolding consistent_def containsOk_def
  using posOk_consistent [of w c] by (auto simp: satisfies_eq)


section \<open>What applyDiffConstraint records\<close>

lemma diffFixed_eq:
  "\<forall>i \<in> set is. i < length guess \<and> i < length answer \<Longrightarrow>
   diffFixed is guess answer c =
     Some (c\<lparr>position := (\<lambda>j. if j \<in> set is \<and> guess ! j = answer ! j then guess ! j else position c j)\<rparr>)"
proof (induction "is" arbitrary: c)
  case Nil
  then show ?case by simp
next
  case (Cons i "is")
  have ih: "\<And>c. diffFixed is guess answer c =
     Some (c\<lparr>position := (\<lambda>j. if j \<in> set is \<and> guess ! j = answer ! j then guess ! j else position c j)\<rparr>)"
    using Cons by simp
  have len: "\<not> (length guess \<le> i \<or> length answer \<le> i)"
    using Cons.prems by auto
  show ?case
    unfolding diffFixed.simps using len
    by (auto simp: ih fun_eq_iff)
qed

lemma excludeFree_position [simp]: "position (excludeFree js k c) = position c"
  by (induction js arbitrary: c) auto

lemma excludeFree_contains [simp]: "contains (excludeFree js k c) = contains c"
  by (induction js arbitrary: c) auto

lemma excludeFree_notPosition:
  "notPosition (excludeFree js k c) j k' \<longleftrightarrow>
     notPosition c j k' \<or> (j \<in> set js \<and> position c j = zero \<and> k' = k)"
  by (induction js arbitrary: c) auto

lemma found_position: "position c' = position c \<Longrightarrow> found c' w b is = found c w b is"
  by (simp add: found_eq)

lemma recorded_position:
  "position c' = position c \<Longrightarrow> recorded c' guess answer = recorded c guess answer"
proof -
  assume p: "position c' = position c"
  have "\<And>b. found c' answer b [0..<5] = found c answer b [0..<5]"
    by (rule found_position [OF p])
  then show ?thesis by (simp add: recorded_def fun_eq_iff p)
qed

lemma diffFree_eq:
  "\<forall>i \<in> set is. lower (guess ! i) \<Longrightarrow>
   \<exists>c'. diffFree is guess answer c = Some c' \<and>
     position c' = position c \<and>
     contains c' = contains c @
        map (\<lambda>i. guess ! i) (filter (\<lambda>i. position c i = zero \<and> found c answer (guess ! i) [0..<5]) is) \<and>
     (\<forall>j k. notPosition c' j k \<longleftrightarrow>
        notPosition c j k \<or> (\<exists>i \<in> set is. recorded c guess answer i j k))"
proof (induction "is" arbitrary: c)
  case Nil
  then show ?case by simp
next
  case (Cons i "is")
  have lo: "\<not> 26 \<le> idx (guess ! i)"
    using Cons.prems lower_idx [of "guess ! i"] by simp
  have ih: "\<And>c. \<exists>c'. diffFree is guess answer c = Some c' \<and>
     position c' = position c \<and>
     contains c' = contains c @
        map (\<lambda>i. guess ! i) (filter (\<lambda>i. position c i = zero \<and> found c answer (guess ! i) [0..<5]) is) \<and>
     (\<forall>j k. notPosition c' j k \<longleftrightarrow>
        notPosition c j k \<or> (\<exists>i \<in> set is. recorded c guess answer i j k))"
    using Cons by simp
  consider (fixed) "position c i \<noteq> zero"
    | (contained) "position c i = zero" "found c answer (guess ! i) [0..<5]"
    | (absent) "position c i = zero" "\<not> found c answer (guess ! i) [0..<5]"
    by blast
  then show ?case
  proof cases
    case fixed
    from ih [of c] obtain c' where c': "diffFree is guess answer c = Some c'"
      "position c' = position c"
      "contains c' = contains c @
        map (\<lambda>i. guess ! i) (filter (\<lambda>i. position c i = zero \<and> found c answer (guess ! i) [0..<5]) is)"
      "\<And>j k. notPosition c' j k \<longleftrightarrow>
        notPosition c j k \<or> (\<exists>i \<in> set is. recorded c guess answer i j k)"
      by blast
    have "\<And>j k. \<not> recorded c guess answer i j k"
      using fixed by (simp add: recorded_def)
    then show ?thesis using fixed c' by simp
  next
    case contained
    let ?c = "c\<lparr>notPosition := (notPosition c)(i := (notPosition c i)(idx (guess ! i) := True)),
                  contains := contains c @ [guess ! i]\<rparr>"
    have p: "position ?c = position c" by simp
    from ih [of ?c] obtain c' where c': "diffFree is guess answer ?c = Some c'"
      "position c' = position ?c"
      "contains c' = contains ?c @
        map (\<lambda>i. guess ! i) (filter (\<lambda>i. position ?c i = zero \<and> found ?c answer (guess ! i) [0..<5]) is)"
      "\<And>j k. notPosition c' j k \<longleftrightarrow>
        notPosition ?c j k \<or> (\<exists>i \<in> set is. recorded ?c guess answer i j k)"
      by blast
    have f: "\<And>b. found ?c answer b [0..<5] = found c answer b [0..<5]"
      by (rule found_position) simp
    have r: "recorded ?c guess answer = recorded c guess answer"
      by (rule recorded_position) simp
    have ri: "\<And>j k. recorded c guess answer i j k \<longleftrightarrow> j = i \<and> k = idx (guess ! i)"
      using contained by (auto simp: recorded_def)
    have 1: "diffFree (i # is) guess answer c = Some c'"
      using contained lo c'(1) by simp
    have 2: "position c' = position c" using c'(2) by simp
    have 3: "contains c' = contains c @
        map (\<lambda>i. guess ! i) (filter (\<lambda>i. position c i = zero \<and> found c answer (guess ! i) [0..<5]) (i # is))"
      using c'(3) contained by (simp add: f)
    have 4: "\<And>j k. notPosition c' j k \<longleftrightarrow>
        notPosition c j k \<or> (\<exists>i \<in> set (i # is). recorded c guess answer i j k)"
      unfolding c'(4) r by (auto simp: ri)
    show ?thesis using 1 2 3 4 by blast
  next
    case absent
    let ?c = "excludeFree [0..<5] (idx (guess ! i)) c"
    have p: "position ?c = position c" by simp
    from ih [of ?c] obtain c' where c': "diffFree is guess answer ?c = Some c'"
      "position c' = position ?c"
      "contains c' = contains ?c @
        map (\<lambda>i. guess ! i) (filter (\<lambda>i. position ?c i = zero \<and> found ?c answer (guess ! i) [0..<5]) is)"
      "\<And>j k. notPosition c' j k \<longleftrightarrow>
        notPosition ?c j k \<or> (\<exists>i \<in> set is. recorded ?c guess answer i j k)"
      by blast
    have f: "\<And>b. found ?c answer b [0..<5] = found c answer b [0..<5]"
      by (rule found_position) simp
    have r: "recorded ?c guess answer = recorded c guess answer"
      by (rule recorded_position) simp
    have ri: "\<And>j k. recorded c guess answer i j k \<longleftrightarrow> j < 5 \<and> position c j = zero \<and> k = idx (guess ! i)"
      using absent by (auto simp: recorded_def)
    have 1: "diffFree (i # is) guess answer c = Some c'"
      using absent lo c'(1) by simp
    have 2: "position c' = position c" using c'(2) by simp
    have 3: "contains c' = contains c @
        map (\<lambda>i. guess ! i) (filter (\<lambda>i. position c i = zero \<and> found c answer (guess ! i) [0..<5]) (i # is))"
      using c'(3) absent by (simp add: f)
    have 4: "\<And>j k. notPosition c' j k \<longleftrightarrow>
        notPosition c j k \<or> (\<exists>i \<in> set (i # is). recorded c guess answer i j k)"
      unfolding c'(4) r by (auto simp: ri excludeFree_notPosition)
    show ?thesis using 1 2 3 4 by blast
  qed
qed

lemma applyDiff_clear:
  assumes g: "isWord guess" and a: "isWord answer"
  shows "\<exists>c'. applyDiffConstraint (clearConstraints c) guess answer = Some c' \<and>
    (\<forall>i. position c' i = (if i < 5 \<and> guess ! i = answer ! i then guess ! i else zero)) \<and>
    contains c' = map (\<lambda>i. guess ! i)
       (filter (\<lambda>i. guess ! i \<noteq> answer ! i \<and> present guess answer (guess ! i)) [0..<5]) \<and>
    (\<forall>j k. notPosition c' j k \<longleftrightarrow>
       (\<exists>i \<in> {0..<5}. guess ! i \<noteq> answer ! i \<and> k = idx (guess ! i) \<and>
          (if present guess answer (guess ! i) then j = i else j < 5 \<and> guess ! j \<noteq> answer ! j)))"
proof -
  define c0 where "c0 = clearConstraints c"
  define c1 where "c1 = c0\<lparr>position := (\<lambda>j. if j \<in> set [0..<5] \<and> guess ! j = answer ! j then guess ! j else position c0 j)\<rparr>"
  have c1n: "notPosition c1 = (\<lambda>j k. False)" and c1c: "contains c1 = []"
    by (simp_all add: c1_def c0_def clearConstraints_def)
  have len: "length guess = 5" "length answer = 5"
    using g a by (simp_all add: isWord_def)
  have 1: "diffFixed [0..<5] guess answer c0 = Some c1"
    unfolding c1_def by (rule diffFixed_eq) (simp add: len)
  have lo: "\<forall>i \<in> set [0..<5]. lower (guess ! i)"
    using isWord_nth [OF g] by simp
  have nz: "\<And>i. i < 5 \<Longrightarrow> guess ! i \<noteq> zero"
    using isWord_nth [OF g] lower_nonzero by blast
  have pos: "\<And>i. position c1 i = (if i < 5 \<and> guess ! i = answer ! i then guess ! i else zero)"
    by (simp add: c1_def c0_def clearConstraints_def)
  have pz: "\<And>i. i < 5 \<Longrightarrow> position c1 i = zero \<longleftrightarrow> guess ! i \<noteq> answer ! i"
  proof -
    fix i :: nat assume "i < 5"
    then show "position c1 i = zero \<longleftrightarrow> guess ! i \<noteq> answer ! i"
      using nz [of i] by (auto simp: pos)
  qed
  have fnd: "\<And>b. found c1 answer b [0..<5] = present guess answer b"
    unfolding found_eq present_def using pz by auto
  from diffFree_eq [OF lo, of answer c1] obtain c' where c':
    "diffFree [0..<5] guess answer c1 = Some c'"
    "position c' = position c1"
    "contains c' = contains c1 @
        map (\<lambda>i. guess ! i) (filter (\<lambda>i. position c1 i = zero \<and> found c1 answer (guess ! i) [0..<5]) [0..<5])"
    "\<And>j k. notPosition c' j k \<longleftrightarrow>
        notPosition c1 j k \<or> (\<exists>i \<in> set [0..<5]. recorded c1 guess answer i j k)"
    by blast
  have A: "applyDiffConstraint c0 guess answer = Some c'"
    unfolding applyDiffConstraint_def c0_def [symmetric] 1 using c'(1) by simp
  have B: "\<forall>i. position c' i = (if i < 5 \<and> guess ! i = answer ! i then guess ! i else zero)"
    unfolding c'(2) using pos by blast
  have fl: "filter (\<lambda>i. position c1 i = zero \<and> found c1 answer (guess ! i) [0..<5]) [0..<5]
      = filter (\<lambda>i. guess ! i \<noteq> answer ! i \<and> present guess answer (guess ! i)) [0..<5]"
    by (rule filter_cong [OF refl]) (simp only: fnd, use pz in auto)
  have C: "contains c' = map (\<lambda>i. guess ! i)
       (filter (\<lambda>i. guess ! i \<noteq> answer ! i \<and> present guess answer (guess ! i)) [0..<5])"
    unfolding c'(3) fl by (simp add: c1c)
  have rec: "\<And>i j k. i < 5 \<Longrightarrow> recorded c1 guess answer i j k \<longleftrightarrow>
      guess ! i \<noteq> answer ! i \<and> k = idx (guess ! i) \<and>
          (if present guess answer (guess ! i) then j = i else j < 5 \<and> guess ! j \<noteq> answer ! j)"
    unfolding recorded_def fnd using pz by auto
  have D: "\<forall>j k. notPosition c' j k \<longleftrightarrow>
       (\<exists>i \<in> {0..<5}. guess ! i \<noteq> answer ! i \<and> k = idx (guess ! i) \<and>
          (if present guess answer (guess ! i) then j = i else j < 5 \<and> guess ! j \<noteq> answer ! j))"
    unfolding c'(4) using rec by (simp add: c1n)
  show ?thesis using A [unfolded c0_def] B C D by blast
qed

lemma diff_sound:
  assumes g: "isWord guess" and a: "isWord answer"
  shows "\<exists>c'. applyDiffConstraint (clearConstraints c) guess answer = Some c' \<and>
     satisfies c' answer = Some True"
proof -
  from applyDiff_clear [OF g a, of c] obtain c' where c':
    "applyDiffConstraint (clearConstraints c) guess answer = Some c'"
    "\<And>i. position c' i = (if i < 5 \<and> guess ! i = answer ! i then guess ! i else zero)"
    "contains c' = map (\<lambda>i. guess ! i)
       (filter (\<lambda>i. guess ! i \<noteq> answer ! i \<and> present guess answer (guess ! i)) [0..<5])"
    "\<And>j k. notPosition c' j k \<longleftrightarrow>
       (\<exists>i \<in> {0..<5}. guess ! i \<noteq> answer ! i \<and> k = idx (guess ! i) \<and>
          (if present guess answer (guess ! i) then j = i else j < 5 \<and> guess ! j \<noteq> answer ! j))"
    by blast
  have nz: "\<And>i. i < 5 \<Longrightarrow> guess ! i \<noteq> zero"
    using isWord_nth [OF g] lower_nonzero by blast
  have P: "\<And>i. i < 5 \<Longrightarrow> posOk c' answer i"
  proof -
    fix i :: nat assume i: "i < 5"
    show "posOk c' answer i"
    proof (cases "guess ! i = answer ! i")
      case True
      then show ?thesis using i nz [OF i] by (simp add: posOk_def c'(2))
    next
      case False
      have "\<not> notPosition c' i (idx (answer ! i))"
        unfolding c'(4) using False i by (auto simp: idx_inj present_def)
      then show ?thesis using False i by (simp add: posOk_def c'(2))
    qed
  qed
  have Q: "\<forall>b \<in> set (contains c'). \<exists>i \<in> {0..<5}. position c' i = zero \<and> answer ! i = b"
    unfolding c'(3) by (auto simp: present_def c'(2))
  show ?thesis
    using c'(1) P Q by (simp add: satisfies_eq [OF a])
qed

section \<open>The claims about filter and the diff\<close>

text \<open>
  Claim C3. The near-duplicate diffs diverge where a letter is repeated: for the guess
  \<open>alpha\<close> (two \<open>a\<close>) against the answer \<open>adieu\<close>, one step of the simulation in the
  position-aware program removes \<open>amass\<close> from the catalogue, and the same step in the
  program that ignores multiplicity keeps it.
\<close>

theorem C3_variants_diverge:
  "\<not> distinct ''alpha'' \<and>
   diffFilter newConstraints ''alpha'' ''adieu'' [entry ''adieu'' 20, entry ''amass'' 10]
     = Some [entry ''adieu'' 20] \<and>
   diffFilter2 newConstraints2 ''alpha'' ''adieu'' [entry ''adieu'' 20, entry ''amass'' 10]
     = Some [entry ''adieu'' 20, entry ''amass'' 10]"
  by code_simp

text \<open>
  Claim C1. Soundness of filtering by own feedback: for a catalogue of words of five
  lower-case letters, a guess and an answer of that form, and the answer in the catalogue,
  the diff of the guess against the answer on a cleared model, followed by filter, returns
  a catalogue that still holds the answer.
\<close>

theorem C1_soundness:
  assumes "catalog ws" and "isWord guess" and "isWord answer" and "answer \<in> word ` set ws"
  shows "\<exists>r. diffFilter c guess answer ws = Some r \<and> answer \<in> word ` set r"
proof -
  from diff_sound [OF assms(2,3), of c] obtain c' where
    c': "applyDiffConstraint (clearConstraints c) guess answer = Some c'"
    and sat: "satisfies c' answer = Some True"
    by blast
  have f: "filter' c' ws = Some (filter (keeps c') ws)"
    by (rule filter'_catalog [OF assms(1)])
  from assms(4) obtain w where w: "w \<in> set ws" "word w = answer" by auto
  then have "w \<in> set (filter (keeps c') ws)" using sat by (simp add: keeps_def)
  then have "answer \<in> word ` set (filter (keeps c') ws)" using w(2) by blast
  then show ?thesis using c' f by (simp add: diffFilter_def)
qed

theorem C1_soundness_witness:
  "catalog scenario \<and> isWord ''allot'' \<and> isWord ''alpha'' \<and> ''alpha'' \<in> word ` set scenario \<and>
   (\<exists>r. diffFilter newConstraints ''allot'' ''alpha'' scenario = Some r \<and> ''alpha'' \<in> word ` set r)"
proof -
  have 1: "catalog scenario" by code_simp
  have 2: "isWord ''allot''" by code_simp
  have 3: "isWord ''alpha''" by code_simp
  have 4: "''alpha'' \<in> word ` set scenario" by (simp add: scenario_def entry_def)
  show ?thesis using 1 2 3 4 C1_soundness [OF 1 2 3 4, of newConstraints] by blast
qed

text \<open>
  Claim C6. Filtering again is idempotent: on a catalogue of words, filter returns a
  catalogue, and filtering that catalogue against the same model returns it unchanged.
\<close>

theorem C6_filter_idempotent:
  "catalog ws \<Longrightarrow> \<exists>r. filter' c ws = Some r \<and> filter' c r = Some r"
proof -
  assume cat: "catalog ws"
  have 1: "filter' c ws = Some (filter (keeps c) ws)"
    by (rule filter'_catalog [OF cat])
  have "filter' c (filter (keeps c) ws) = Some (filter (keeps c) (filter (keeps c) ws))"
    by (rule filter'_catalog [OF catalog_filter [OF cat]])
  then show ?thesis using 1 by simp
qed

theorem C6_filter_idempotent_witness:
  "catalog scenario \<and>
   (\<exists>r. filter' (excludeFree [0..<5] (idx CHR ''l'') newConstraints) scenario = Some r \<and>
        filter' (excludeFree [0..<5] (idx CHR ''l'') newConstraints) r = Some r)"
proof -
  have 1: "catalog scenario" by code_simp
  show ?thesis using 1 C6_filter_idempotent [OF 1] by simp
qed

text \<open>
  Claim C2, as amended. For a guess and an answer of five lower-case letters the diff on
  a cleared model fixes the positions of the exact matches; a letter of the guess at a
  position that is not fixed is recorded as contained (excluded at its own position and
  appended to \<open>contains\<close>) exactly when the answer has that letter at some position that no
  exact match has consumed, and is otherwise excluded at every position that is not fixed.
  Occurrences claimed by earlier positions of the guess are not counted.
\<close>

theorem C2_contained_iff_present:
  assumes "isWord guess" and "isWord answer"
  shows "\<exists>c'. applyDiffConstraint (clearConstraints c) guess answer = Some c' \<and>
    (\<forall>i. position c' i = (if i < 5 \<and> guess ! i = answer ! i then guess ! i else zero)) \<and>
    contains c' = map (\<lambda>i. guess ! i)
       (filter (\<lambda>i. guess ! i \<noteq> answer ! i \<and> present guess answer (guess ! i)) [0..<5]) \<and>
    (\<forall>j k. notPosition c' j k \<longleftrightarrow>
       (\<exists>i \<in> {0..<5}. guess ! i \<noteq> answer ! i \<and> k = idx (guess ! i) \<and>
          (if present guess answer (guess ! i) then j = i else j < 5 \<and> guess ! j \<noteq> answer ! j)))"
  by (rule applyDiff_clear [OF assms])

theorem C2_contained_iff_present_witness:
  "isWord ''sassy'' \<and> isWord ''glass'' \<and>
   (\<exists>c'. applyDiffConstraint (clearConstraints newConstraints) ''sassy'' ''glass'' = Some c' \<and>
      position c' 3 = CHR ''s'' \<and> contains c' = ''sas'')"
proof -
  have 1: "isWord ''sassy''" by code_simp
  have 2: "isWord ''glass''" by code_simp
  have ps: "present ''sassy'' ''glass'' CHR ''s''" by (simp add: present_def iv5)
  have pa: "present ''sassy'' ''glass'' CHR ''a''" by (simp add: present_def iv5)
  have py: "\<not> present ''sassy'' ''glass'' CHR ''y''" by (simp add: present_def iv5)
  have 3: "map (\<lambda>i. ''sassy'' ! i)
       (filter (\<lambda>i. ''sassy'' ! i \<noteq> ''glass'' ! i \<and> present ''sassy'' ''glass'' (''sassy'' ! i)) [0..<5]) = ''sas''"
    by (simp add: upt5 ps pa py)
  have 4: "(if (3::nat) < 5 \<and> ''sassy'' ! 3 = ''glass'' ! 3 then ''sassy'' ! 3 else zero) = CHR ''s''"
    by simp
  from C2_contained_iff_present [OF 1 2, of newConstraints] obtain c' where
    a: "applyDiffConstraint (clearConstraints newConstraints) ''sassy'' ''glass'' = Some c'"
    and b: "\<forall>i. position c' i = (if i < 5 \<and> ''sassy'' ! i = ''glass'' ! i then ''sassy'' ! i else zero)"
    and c: "contains c' = map (\<lambda>i. ''sassy'' ! i)
       (filter (\<lambda>i. ''sassy'' ! i \<noteq> ''glass'' ! i \<and> present ''sassy'' ''glass'' (''sassy'' ! i)) [0..<5])"
    by blast
  have p: "position c' 3 = CHR ''s''"
    using b [rule_format, of 3] unfolding 4 .
  have q: "contains c' = ''sas''"
    using c unfolding 3 .
  show ?thesis using 1 2 a p q by blast
qed

text \<open>
  Claim C2 as stated fails for \<open>sassy\<close> against \<open>glass\<close>: the \<open>s\<close> at position 2 of the guess is
  recorded as contained (\<open>contains\<close> is \<open>sas\<close>, the letter is excluded at position 2 and not
  at position 4), although the one \<open>s\<close> of the answer that no exact match has consumed
  (position 4) is already claimed by the \<open>s\<close> at position 0 of the guess.
\<close>

theorem C2_counterexample:
  "(case applyDiffConstraint (clearConstraints newConstraints) ''sassy'' ''glass'' of
      None \<Rightarrow> False
    | Some c \<Rightarrow> contains c = ''sas'' \<and> notPosition c 2 (idx CHR ''s'') \<and>
        \<not> notPosition c 4 (idx CHR ''s'') \<and> \<not> unclaimed ''sassy'' ''glass'' 2)"
  by code_simp

text \<open>
  Claim C4, as amended. On a catalogue of words filter returns exactly the words that are
  consistent with the model, in their order: (1) a fixed position holds its letter,
  (2) the letter at a position is not excluded there, unless the position is fixed to it,
  (3) every letter of \<open>contains\<close> occurs at a position that is not fixed, (4) no letter
  excluded at every position that is not fixed occurs at such a position.
\<close>

theorem C4_filter_consistent:
  "catalog ws \<Longrightarrow> filter' c ws = Some (filter (\<lambda>w. consistent c (word w)) ws)"
proof -
  assume cat: "catalog ws"
  have "filter (keeps c) ws = filter (\<lambda>w. consistent c (word w)) ws"
    by (rule filter_cong [OF refl])
       (simp add: keeps_def satisfies_consistent [OF catalog_isWord [OF cat]])
  then show ?thesis using filter'_catalog [OF cat, of c] by simp
qed

theorem C4_filter_consistent_witness:
  "catalog scenario \<and>
   filter' (excludeFree [0..<5] (idx CHR ''l'') newConstraints) scenario =
     Some (filter (\<lambda>w. consistent (excludeFree [0..<5] (idx CHR ''l'') newConstraints) (word w)) scenario)"
proof -
  have 1: "catalog scenario" by code_simp
  show ?thesis using 1 C4_filter_consistent [OF 1] by simp
qed

text \<open>
  Claim C4 as stated fails on condition (4), no absent letter anywhere in the word: the
  diff of \<open>alpha\<close> against \<open>adieu\<close> finds the second \<open>a\<close> absent, filter keeps \<open>adieu\<close>, and
  \<open>adieu\<close> holds an \<open>a\<close> (at the fixed position 0).
\<close>

theorem C4_counterexample:
  "(case applyDiffConstraint (clearConstraints newConstraints) ''alpha'' ''adieu'' of
      None \<Rightarrow> False
    | Some c \<Rightarrow> mustNotContain c CHR ''a'' \<and>
        filter' c [entry ''adieu'' 20] = Some [entry ''adieu'' 20] \<and>
        \<not> consistentSpec c ''adieu'')"
proof -
  have 1: "(case applyDiffConstraint (clearConstraints newConstraints) ''alpha'' ''adieu'' of
      None \<Rightarrow> False | Some c \<Rightarrow> mustNotContain c CHR ''a'')"
    by code_simp
  have 2: "(case applyDiffConstraint (clearConstraints newConstraints) ''alpha'' ''adieu'' of
      None \<Rightarrow> False | Some c \<Rightarrow> filter' c [entry ''adieu'' 20] = Some [entry ''adieu'' 20])"
    by code_simp
  have 3: "(case applyDiffConstraint (clearConstraints newConstraints) ''alpha'' ''adieu'' of
      None \<Rightarrow> False | Some c \<Rightarrow> \<not> absentOk c ''adieu'')"
    by code_simp
  show ?thesis
    using 1 2 3 by (simp add: consistentSpec_def split: option.splits)
qed

section \<open>The claims about the feedback line\<close>

lemma fieldOk_token: "fieldOk t = token t"
  by (auto simp: fieldOk_def token_def lower_def)

lemma word_letters: "isWord w \<Longrightarrow> b \<in> set w \<Longrightarrow> \<exists>i \<in> {0..<5}. w ! i = b"
  by (auto simp: isWord_def in_set_conv_nth)

lemma satisfies_posOk: "isWord w \<Longrightarrow> satisfies c w = Some True \<Longrightarrow> i < 5 \<Longrightarrow> posOk c w i"
  by (simp add: satisfies_eq)

lemma free_excluded:
  assumes w: "isWord w" and s: "satisfies c w = Some True"
    and p0: "position c 0 \<noteq> zero"
    and ex: "list_all (\<lambda>i. position c i = zero \<and> notPosition c i (idx b)) [1, 2, 3, 4]"
    and b0: "b \<noteq> position c 0"
  shows "b \<notin> set w"
proof
  assume "b \<in> set w"
  from word_letters [OF w this] obtain i where i: "i < 5" "w ! i = b"
    by auto
  have ok: "posOk c w i" by (rule satisfies_posOk [OF w s i(1)])
  show False
  proof (cases "i = 0")
    case True
    then show False using ok p0 b0 i(2) by (simp add: posOk_def)
  next
    case False
    then have "i \<in> set [1, 2, 3, 4]" using i(1) by (simp; arith)
    then have "position c i = zero" "notPosition c i (idx b)"
      using ex unfolding list_all_iff by blast+
    then show False using ok i(2) by (simp add: posOk_def)
  qed
qed

text \<open>
  Claim C5. The feedback line \<open>+a -l -p -h -a\<close> parses to a model with which filter leaves
  exactly \<open>adieu\<close> and \<open>amber\<close> of the catalogue of the scenario; every word that satisfies
  the model has \<open>a\<close> at position 0 and holds no \<open>l\<close>, \<open>p\<close> or \<open>h\<close>. The token \<open>-a\<close> does not
  remove the words whose only \<open>a\<close> is the fixed one.
\<close>

theorem C5_scenario:
  "\<exists>c. inputConstraints ''+a -l -p -h -a'' = Some c \<and>
     filter' c scenario = Some [entry ''adieu'' 20, entry ''amber'' 10] \<and>
     (\<forall>w. isWord w \<and> satisfies c w = Some True \<longrightarrow>
        w ! 0 = CHR ''a'' \<and> CHR ''l'' \<notin> set w \<and> CHR ''p'' \<notin> set w \<and> CHR ''h'' \<notin> set w)"
proof -
  have 1: "(case inputConstraints ''+a -l -p -h -a'' of None \<Rightarrow> False
      | Some c \<Rightarrow> position c 0 = CHR ''a'')"
    by code_simp
  have 2: "(case inputConstraints ''+a -l -p -h -a'' of None \<Rightarrow> False
      | Some c \<Rightarrow> filter' c scenario = Some [entry ''adieu'' 20, entry ''amber'' 10])"
    by code_simp
  have 3: "(case inputConstraints ''+a -l -p -h -a'' of None \<Rightarrow> False
      | Some c \<Rightarrow> list_all (\<lambda>i. position c i = zero \<and> notPosition c i (idx CHR ''l'')) [1, 2, 3, 4])"
    by code_simp
  have 4: "(case inputConstraints ''+a -l -p -h -a'' of None \<Rightarrow> False
      | Some c \<Rightarrow> list_all (\<lambda>i. position c i = zero \<and> notPosition c i (idx CHR ''p'')) [1, 2, 3, 4])"
    by code_simp
  have 5: "(case inputConstraints ''+a -l -p -h -a'' of None \<Rightarrow> False
      | Some c \<Rightarrow> list_all (\<lambda>i. position c i = zero \<and> notPosition c i (idx CHR ''h'')) [1, 2, 3, 4])"
    by code_simp
  from 1 obtain c where c: "inputConstraints ''+a -l -p -h -a'' = Some c"
    by (cases "inputConstraints ''+a -l -p -h -a''") auto
  have p0: "position c 0 = CHR ''a''" using 1 c by simp
  have f: "filter' c scenario = Some [entry ''adieu'' 20, entry ''amber'' 10]" using 2 c by simp
  have el: "list_all (\<lambda>i. position c i = zero \<and> notPosition c i (idx CHR ''l'')) [1, 2, 3, 4]"
    using 3 c by simp
  have ep: "list_all (\<lambda>i. position c i = zero \<and> notPosition c i (idx CHR ''p'')) [1, 2, 3, 4]"
    using 4 c by simp
  have eh: "list_all (\<lambda>i. position c i = zero \<and> notPosition c i (idx CHR ''h'')) [1, 2, 3, 4]"
    using 5 c by simp
  have nz: "position c 0 \<noteq> zero" by (simp add: p0 zero_def)
  have g: "\<And>w. isWord w \<Longrightarrow> satisfies c w = Some True \<Longrightarrow>
      w ! 0 = CHR ''a'' \<and> CHR ''l'' \<notin> set w \<and> CHR ''p'' \<notin> set w \<and> CHR ''h'' \<notin> set w"
  proof -
    fix w assume w: "isWord w" and s: "satisfies c w = Some True"
    have "posOk c w 0" by (rule satisfies_posOk [OF w s]) simp
    then have a: "w ! 0 = CHR ''a''" using nz p0 by (simp add: posOk_def)
    have l: "CHR ''l'' \<notin> set w"
      by (rule free_excluded [OF w s nz el]) (simp add: p0)
    have p: "CHR ''p'' \<notin> set w"
      by (rule free_excluded [OF w s nz ep]) (simp add: p0)
    have h: "CHR ''h'' \<notin> set w"
      by (rule free_excluded [OF w s nz eh]) (simp add: p0)
    show "w ! 0 = CHR ''a'' \<and> CHR ''l'' \<notin> set w \<and> CHR ''p'' \<notin> set w \<and> CHR ''h'' \<notin> set w"
      using a l p h by simp
  qed
  show ?thesis using c f g by blast
qed

theorem C5_scenario_witness:
  "\<exists>c. inputConstraints ''+a -l -p -h -a'' = Some c \<and>
     isWord ''adieu'' \<and> satisfies c ''adieu'' = Some True \<and>
     ''adieu'' ! 0 = CHR ''a'' \<and> CHR ''l'' \<notin> set ''adieu'' \<and> CHR ''p'' \<notin> set ''adieu'' \<and>
     CHR ''h'' \<notin> set ''adieu''"
proof -
  have 1: "isWord ''adieu''" by code_simp
  have 2: "(case inputConstraints ''+a -l -p -h -a'' of None \<Rightarrow> False
      | Some c \<Rightarrow> satisfies c ''adieu'' = Some True)"
    by code_simp
  from C5_scenario obtain c where c: "inputConstraints ''+a -l -p -h -a'' = Some c"
    and g: "\<forall>w. isWord w \<and> satisfies c w = Some True \<longrightarrow>
        w ! 0 = CHR ''a'' \<and> CHR ''l'' \<notin> set w \<and> CHR ''p'' \<notin> set w \<and> CHR ''h'' \<notin> set w"
    by blast
  have s: "satisfies c ''adieu'' = Some True" using 2 c by simp
  show ?thesis using 1 c s g [rule_format, of "''adieu''"] by blast
qed

text \<open>
  Claim C8. inputConstraints returns \<^verbatim>\<open>nil\<close> exactly for the lines that are not well
  formed: five fields, each an operator \<open>+\<close>, \<open>~\<close> or \<open>-\<close> followed by one letter \<open>a\<close> to \<open>z\<close>.
  A well-formed line gives a model whether or not a word can satisfy it (the witness has
  a line that asks for an \<open>a\<close> and excludes it everywhere).
\<close>

theorem C8_parse_error:
  "inputConstraints line = None \<longleftrightarrow> \<not> wellFormed line"
  by (simp add: inputConstraints_def wellFormed_def Let_def fieldOk_token [abs_def])

theorem C8_parse_error_witness:
  "wellFormed ''~a ~a ~a ~a ~a'' \<and> inputConstraints ''~a ~a ~a ~a ~a'' \<noteq> None \<and>
   \<not> wellFormed ''+a -l -p -h'' \<and> inputConstraints ''+a -l -p -h'' = None \<and>
   \<not> wellFormed ''+a -l -p -h -A'' \<and> inputConstraints ''+a -l -p -h -A'' = None"
proof -
  have 1: "wellFormed ''~a ~a ~a ~a ~a''" by code_simp
  have 2: "\<not> wellFormed ''+a -l -p -h''" by code_simp
  have 3: "\<not> wellFormed ''+a -l -p -h -A''" by code_simp
  show ?thesis
    using 1 2 3 C8_parse_error [of "''~a ~a ~a ~a ~a''"] C8_parse_error [of "''+a -l -p -h''"]
      C8_parse_error [of "''+a -l -p -h -A''"]
    by simp
qed

end
